theory Spec2Isabelle
  imports Complex_Main "HOL-Library.Word" "HOL-Library.Log_Nat"
begin

section \<open>The gesture recogniser of the ESP32 teeth controller\<close>

text \<open>
  A shallow embedding of \<^verbatim>\<open>TeethInputManager.h\<close> and \<^verbatim>\<open>TeethInputManager.cpp\<close>.

  \<^item> \<^verbatim>\<open>unsigned long\<close> is a 32-bit word (the ESP32 is an ILP32 target), so every
    difference of two \<^verbatim>\<open>millis()\<close> readings wraps around as it does on the device.
  \<^item> Button pins are \<^verbatim>\<open>int\<close>, held here by their values. The only arithmetic on them
    is \<^verbatim>\<open>abs(sequence[i] - sequence[i-1])\<close> in the classifier, which is carried out in
    32 bits with the wrap-around of the device (\<open>int_sub\<close>, \<open>int_abs\<close>).
  \<^item> \<^verbatim>\<open>int uniqueCount = uniqueButtons.size()\<close> is exact, since a
    \<^verbatim>\<open>std::vector<int>\<close> never holds more than \<^verbatim>\<open>PTRDIFF_MAX / sizeof(int)\<close>
    elements; the count is converted back to \<^verbatim>\<open>unsigned long\<close> for the product
    \<^verbatim>\<open>SLIDE_MAX_INTERVAL * uniqueCount\<close>, which is a 32-bit product.
  \<^item> \<^verbatim>\<open>String\<close> is \<^typ>\<open>string\<close>; \<^verbatim>\<open>millis()\<close> and \<^verbatim>\<open>digitalRead\<close> are inputs of a tick.
\<close>

type_synonym ulong = "32 word"

subsection \<open>Constants of the class\<close>

definition DEBOUNCE_TIME :: ulong where
  "DEBOUNCE_TIME = 50"

definition LONG_PRESS_TIME :: ulong where
  "LONG_PRESS_TIME = 800"

definition SLIDE_MAX_INTERVAL :: ulong where
  "SLIDE_MAX_INTERVAL = 300"

definition MULTI_PRESS_WINDOW :: ulong where
  "MULTI_PRESS_WINDOW = 500"

subsection \<open>getGestureType\<close>

text \<open>
  Subtraction and \<^verbatim>\<open>abs\<close> on \<^verbatim>\<open>int\<close> as the 32-bit device performs them: the result is
  the two's complement value of the 32-bit difference, respectively of the negated word.
\<close>

definition int_sub :: "int \<Rightarrow> int \<Rightarrow> int" where
  "int_sub a b = sint (word_of_int a - word_of_int b :: 32 word)"

definition int_abs :: "int \<Rightarrow> int" where
  "int_abs x =
     (let w = word_of_int x :: 32 word
      in sint (if sint w < 0 then - w else w))"

text \<open>
  The adjacency loop \<^verbatim>\<open>for (int i = 1; i < sequence.size(); i++)\<close>: it leaves with
  \<^verbatim>\<open>isSlide = false\<close> at the first pair whose ids do not differ by exactly one.
\<close>

function isSlide_loop :: "int list \<Rightarrow> nat \<Rightarrow> bool" where
  "isSlide_loop sequence i =
     (if i < length sequence
      then (if int_abs (int_sub (sequence ! i) (sequence ! (i - 1))) \<noteq> 1 then False
            else isSlide_loop sequence (i + 1))
      else True)"
  by pat_completeness auto
termination
  by (relation "measure (\<lambda>(sequence, i). length sequence - i)") auto

declare isSlide_loop.simps [simp del]

text \<open>
  \<^verbatim>\<open>std::sort\<close> followed by \<^verbatim>\<open>erase(std::unique(...))\<close>: sort, then drop every element
  equal to its predecessor.
\<close>

definition uniqueButtons :: "int list \<Rightarrow> int list" where
  "uniqueButtons sequence = remdups_adj (sort sequence)"

definition getGestureType :: "int list \<Rightarrow> ulong \<Rightarrow> string" where
  "getGestureType sequence duration =
     (if sequence = [] then ''unknown''
      else
        let uniqueCount = int (length (uniqueButtons sequence));
            totalPresses = int (length sequence)
        in
          if uniqueCount = 1 then
            (if duration > LONG_PRESS_TIME then ''long_press''
             else if totalPresses > 1 then ''multi_press''
             else ''single_click'')
          else if uniqueCount > 1 then
            (let isSlide = isSlide_loop sequence 1
             in if isSlide \<and> duration < SLIDE_MAX_INTERVAL * word_of_int uniqueCount
                then ''slide''
                else ''multi_press'')
          else ''unknown'')"

subsection \<open>The float field of the result\<close>

text \<open>
  \<^verbatim>\<open>result.duration = totalDuration / 1000.0\<close> converts the 32-bit count to
  \<^verbatim>\<open>double\<close> (exactly), divides in \<^verbatim>\<open>double\<close> and narrows the quotient to the
  \<^verbatim>\<open>float\<close> field. A floating-point number is modelled by the rational it denotes,
  and each of the two roundings is IEEE 754 round-to-nearest, ties to even, at 53 and at
  24 significant bits. The quotients that occur are 0 or lie between \<open>2\<^sup>-\<^sup>1\<^sup>0\<close> and
  \<open>2\<^sup>2\<^sup>3\<close>, far inside the normal range of both formats, so the exponent limits play
  no part and are left out.
\<close>

definition round_half_even :: "rat \<Rightarrow> int" where
  "round_half_even x =
     (let f = \<lfloor>x\<rfloor>; r = x - of_int f
      in if r < 1 / 2 then f
         else if 1 / 2 < r then f + 1
         else if even f then f else f + 1)"

text \<open>The binary exponent \<open>\<lfloor>log\<^sub>2 x\<rfloor>\<close> of a positive rational.\<close>

definition ilog2 :: "rat \<Rightarrow> int" where
  "ilog2 x =
     (case quotient_of x of (a, b) \<Rightarrow>
        let k = bitlen a - bitlen b
        in if 2 powi k \<le> x then k else k - 1)"

definition round_to_precision :: "nat \<Rightarrow> rat \<Rightarrow> rat" where
  "round_to_precision p x =
     (if x \<le> 0 then 0
      else let s = 2 powi (int p - 1 - ilog2 x)
           in of_int (round_half_even (x * s)) / s)"

definition double_of_ulong :: "ulong \<Rightarrow> rat" where
  "double_of_ulong n = of_nat (unat n)"

definition double_div :: "rat \<Rightarrow> rat \<Rightarrow> rat" where
  "double_div x y = round_to_precision 53 (x / y)"

definition float_of_double :: "rat \<Rightarrow> rat" where
  "float_of_double x = round_to_precision 24 x"

subsection \<open>The data of the header\<close>

record ButtonState =
  pin :: int
  currentState :: bool
  lastState :: bool
  pressStartTime :: ulong
  lastChangeTime :: ulong
  isPressed :: bool

record TeethInput =
  isValid :: bool
  gesture :: string
  teeth :: "int list"
  duration :: rat

text \<open>The constructor \<^verbatim>\<open>TeethInput() : isValid(false), duration(0) {}\<close>.\<close>

definition TeethInput_new :: TeethInput where
  "TeethInput_new = \<lparr>isValid = False, gesture = [], teeth = [], duration = 0\<rparr>"

record TeethInputManager =
  buttons :: "ButtonState list"
  currentGesture :: "int list"
  gestureStartTime :: ulong
  lastButtonTime :: ulong
  gestureActive :: bool

datatype error = ConfigurationError

subsection \<open>resetGesture and init\<close>

definition resetGesture :: "TeethInputManager \<Rightarrow> TeethInputManager" where
  "resetGesture m =
     m\<lparr>currentGesture := [], gestureStartTime := 0, lastButtonTime := 0,
       gestureActive := False\<rparr>"

definition ButtonState_new :: "int \<Rightarrow> ButtonState" where
  "ButtonState_new p =
     \<lparr>pin = p, currentState = False, lastState = False, pressStartTime = 0,
      lastChangeTime = 0, isPressed = False\<rparr>"

text \<open>The loop \<^verbatim>\<open>for (int pin : buttonPins) { ...; buttons.push_back(btn); }\<close>.\<close>

fun init_loop :: "int list \<Rightarrow> ButtonState list \<Rightarrow> ButtonState list" where
  "init_loop [] bs = bs"
| "init_loop (p # buttonPins) bs = init_loop buttonPins (bs @ [ButtonState_new p])"

text \<open>
  \<^verbatim>\<open>init\<close> is a \<^verbatim>\<open>void\<close> method with no \<^verbatim>\<open>throw\<close>, no \<^verbatim>\<open>return\<close> and no check of its
  argument. The result type has room for a failure so that a refusal can be spoken
  about; no path of the source produces one.
\<close>

definition init :: "int list \<Rightarrow> TeethInputManager \<Rightarrow> error + TeethInputManager" where
  "init buttonPins m = Inr (resetGesture (m\<lparr>buttons := init_loop buttonPins []\<rparr>))"

subsection \<open>updateButtonStates\<close>

text \<open>
  One pass of the loop body for the button \<open>btn\<close>; \<open>now\<close> is the value of
  \<^verbatim>\<open>millis()\<close> read at the top of \<^verbatim>\<open>updateButtonStates\<close> and \<open>digitalRead\<close> gives the
  level of every pin (0 is \<^verbatim>\<open>LOW\<close>). The body changes the button and the four
  gesture fields of the manager, never the button table itself.
\<close>

definition updateButtonStates_body ::
  "ulong \<Rightarrow> (int \<Rightarrow> int) \<Rightarrow> ButtonState \<Rightarrow> TeethInputManager
     \<Rightarrow> ButtonState \<times> TeethInputManager" where
  "updateButtonStates_body now digitalRead btn m =
     (let reading = (digitalRead (pin btn) = 0);
          btn1 = (if reading \<noteq> lastState btn then btn\<lparr>lastChangeTime := now\<rparr> else btn);
          (btn2, m2) =
            (if now - lastChangeTime btn1 > DEBOUNCE_TIME then
               (if reading \<noteq> currentState btn1 then
                  (if reading then
                     (btn1\<lparr>currentState := reading, pressStartTime := now, isPressed := True\<rparr>,
                      (let m1 = m\<lparr>currentGesture := currentGesture m @ [pin btn1],
                                   lastButtonTime := now\<rparr>
                       in if \<not> gestureActive m1
                          then m1\<lparr>gestureStartTime := now, gestureActive := True\<rparr>
                          else m1))
                   else (btn1\<lparr>currentState := reading, isPressed := False\<rparr>, m))
                else (btn1, m))
             else (btn1, m))
      in (btn2\<lparr>lastState := reading\<rparr>, m2))"

fun updateButtonStates_loop ::
  "ulong \<Rightarrow> (int \<Rightarrow> int) \<Rightarrow> ButtonState list \<Rightarrow> TeethInputManager
     \<Rightarrow> ButtonState list \<times> TeethInputManager" where
  "updateButtonStates_loop now digitalRead [] m = ([], m)"
| "updateButtonStates_loop now digitalRead (btn # rest) m =
     (let (btn', m') = updateButtonStates_body now digitalRead btn m;
          (rest', m'') = updateButtonStates_loop now digitalRead rest m'
      in (btn' # rest', m''))"

definition updateButtonStates ::
  "ulong \<Rightarrow> (int \<Rightarrow> int) \<Rightarrow> TeethInputManager \<Rightarrow> TeethInputManager" where
  "updateButtonStates now digitalRead m =
     (let (bs, m') = updateButtonStates_loop now digitalRead (buttons m) m
      in m'\<lparr>buttons := bs\<rparr>)"

subsection \<open>analyzeGesture and checkInput\<close>

text \<open>The search \<^verbatim>\<open>for (const auto& btn : buttons) if (btn.isPressed) { ...; break; }\<close>.\<close>

fun anyPressed_loop :: "ButtonState list \<Rightarrow> bool" where
  "anyPressed_loop [] = False"
| "anyPressed_loop (btn # rest) = (if isPressed btn then True else anyPressed_loop rest)"

definition analyzeGesture :: "ulong \<Rightarrow> TeethInputManager \<Rightarrow> TeethInput \<times> TeethInputManager" where
  "analyzeGesture now m =
     (let result = TeethInput_new;
          anyPressed = anyPressed_loop (buttons m)
      in if \<not> anyPressed \<and> gestureActive m \<and> now - lastButtonTime m > MULTI_PRESS_WINDOW
         then
           (let result' =
                  (if currentGesture m \<noteq> [] then
                     (let totalDuration = now - gestureStartTime m
                      in result\<lparr>isValid := True,
                                gesture := getGestureType (currentGesture m) totalDuration,
                                duration := float_of_double
                                              (double_div (double_of_ulong totalDuration) 1000),
                                teeth := uniqueButtons (currentGesture m)\<rparr>)
                   else result)
            in (result', resetGesture m))
         else (result, m))"

text \<open>
  A tick: \<open>now\<^sub>u\<close> and \<open>now\<^sub>a\<close> are the two readings of \<^verbatim>\<open>millis()\<close>, the first in
  \<^verbatim>\<open>updateButtonStates\<close> and the second in \<^verbatim>\<open>analyzeGesture\<close>.
\<close>

definition checkInput ::
  "ulong \<Rightarrow> (int \<Rightarrow> int) \<Rightarrow> ulong \<Rightarrow> TeethInputManager \<Rightarrow> TeethInput \<times> TeethInputManager" where
  "checkInput now_u digitalRead now_a m = analyzeGesture now_a (updateButtonStates now_u digitalRead m)"

subsection \<open>Runs of the controller\<close>

text \<open>
  The caller invokes \<^verbatim>\<open>checkInput\<close> once per pass of its main loop. A tick carries what
  that call reads from the outside: the clock in \<^verbatim>\<open>updateButtonStates\<close>, the pin levels,
  and the clock in \<^verbatim>\<open>analyzeGesture\<close>. \<open>run\<close> performs the ticks of a list in order and
  drops the returned gestures.
\<close>

type_synonym tick = "ulong \<times> (int \<Rightarrow> int) \<times> ulong"

fun run :: "tick list \<Rightarrow> TeethInputManager \<Rightarrow> TeethInputManager" where
  "run [] m = m"
| "run ((now_u, digitalRead, now_a) # ticks) m =
     run ticks (snd (checkInput now_u digitalRead now_a m))"

subsection \<open>Predicates used in the statements\<close>

text \<open>The session flag and the press list agree: the flag is set exactly when a press is held.\<close>

definition session_inv :: "TeethInputManager \<Rightarrow> bool" where
  "session_inv m = (gestureActive m \<longleftrightarrow> currentGesture m \<noteq> [])"

text \<open>
  The path condition under which the loop body takes a reading as a new debounced level
  of \<open>btn\<close> (\<open>levelAccepted\<close>), and under which that level is a press (\<open>pressAccepted\<close>).
\<close>

definition levelAccepted :: "ulong \<Rightarrow> (int \<Rightarrow> int) \<Rightarrow> ButtonState \<Rightarrow> bool" where
  "levelAccepted now digitalRead btn =
     (let reading = (digitalRead (pin btn) = 0)
      in reading = lastState btn \<and> now - lastChangeTime btn > DEBOUNCE_TIME
         \<and> reading \<noteq> currentState btn)"

definition pressAccepted :: "ulong \<Rightarrow> (int \<Rightarrow> int) \<Rightarrow> ButtonState \<Rightarrow> bool" where
  "pressAccepted now digitalRead btn =
     (levelAccepted now digitalRead btn \<and> digitalRead (pin btn) = 0)"

text \<open>The test of \<^verbatim>\<open>analyzeGesture\<close> that closes a session at time \<open>now\<close>.\<close>

definition quiescent :: "ulong \<Rightarrow> TeethInputManager \<Rightarrow> bool" where
  "quiescent now m =
     (\<not> anyPressed_loop (buttons m) \<and> gestureActive m
      \<and> now - lastButtonTime m > MULTI_PRESS_WINDOW)"

subsection \<open>A session used in the examples\<close>

text \<open>
  Button 3 was pressed at 1000 ms and released again; the session is open and nothing is
  held down. \<open>released\<close> is the level of an idle pin (\<^verbatim>\<open>HIGH\<close> under the pull-up).
\<close>

definition example_button :: ButtonState where
  "example_button =
     \<lparr>pin = 3, currentState = False, lastState = False, pressStartTime = 1000,
      lastChangeTime = 1100, isPressed = False\<rparr>"

definition example_session :: TeethInputManager where
  "example_session =
     \<lparr>buttons = [example_button], currentGesture = [3], gestureStartTime = 1000,
      lastButtonTime = 1000, gestureActive = True\<rparr>"

text \<open>A second session with the same press list and another clock and button table.\<close>

definition example_session_later :: TeethInputManager where
  "example_session_later =
     \<lparr>buttons = [], currentGesture = [3], gestureStartTime = 70000,
      lastButtonTime = 70000, gestureActive = True\<rparr>"

text \<open>The manager right after \<open>init\<close> with the single pin 3.\<close>

definition example_idle :: TeethInputManager where
  "example_idle =
     \<lparr>buttons = [ButtonState_new 3], currentGesture = [], gestureStartTime = 0,
      lastButtonTime = 0, gestureActive = False\<rparr>"

definition released :: "int \<Rightarrow> int" where
  "released p = 1"

definition pressed :: "int \<Rightarrow> int" where
  "pressed p = 0"

section \<open>The classifier\<close>

subsection \<open>Sorting and deduplicating\<close>

lemma distinct_remdups_adj_sorted:
  "sorted xs \<Longrightarrow> distinct (remdups_adj (xs :: int list))"
proof (induction xs rule: remdups_adj.induct)
  case 1
  show ?case by simp
next
  case (2 x)
  show ?case by simp
next
  case (3 x y xs)
  show ?case
  proof (cases "x = y")
    case True
    with 3 show ?thesis by simp
  next
    case False
    from "3.prems" have "\<forall>z \<in> set (y # xs). x \<le> z" by simp
    then have "x \<notin> set (y # xs)" using False "3.prems" by auto
    with 3 False show ?thesis by simp
  qed
qed

lemma uniqueButtons_sorted_list_of_set:
  "uniqueButtons sequence = sorted_list_of_set (set sequence)"
proof -
  have "sorted (remdups_adj (sort sequence))" by simp
  moreover have "distinct (remdups_adj (sort sequence))"
    by (simp add: distinct_remdups_adj_sorted)
  moreover have "set (remdups_adj (sort sequence)) = set sequence" by simp
  ultimately show ?thesis
    unfolding uniqueButtons_def
    by (metis List.finite_set sorted_list_of_set.idem_if_sorted_distinct)
qed

lemma length_uniqueButtons: "length (uniqueButtons sequence) = card (set sequence)"
  by (simp add: uniqueButtons_sorted_list_of_set)

subsection \<open>The adjacency loop\<close>








subsection \<open>The slide budget in 32-bit arithmetic\<close>


subsection \<open>Claims about getGestureType\<close>




text \<open>
  C2. A non-empty press sequence with exactly one unique channel is a \<open>long_press\<close>
  when the duration exceeds 800 ms, whatever the number of presses; otherwise a
  \<open>multi_press\<close> when the channel was pressed more than once; otherwise a
  \<open>single_click\<close>.
\<close>

theorem getGestureType_one_channel:
  assumes "sequence \<noteq> []" and "card (set sequence) = 1"
  shows "getGestureType sequence d =
           (if 800 < unat d then ''long_press''
            else if 1 < length sequence then ''multi_press''
            else ''single_click'')"
proof -
  have "800 < unat d \<longleftrightarrow> LONG_PRESS_TIME < d"
    by (simp add: LONG_PRESS_TIME_def word_less_nat_alt)
  then show ?thesis
    using assms by (simp add: getGestureType_def length_uniqueButtons)
qed

theorem getGestureType_one_channel_witness:
  "[3, 3, 3 :: int] \<noteq> [] \<and> card (set [3, 3, 3 :: int]) = 1
   \<and> getGestureType [3, 3, 3] 900 = ''long_press''
   \<and> getGestureType [3, 3, 3] 300 = ''multi_press''
   \<and> getGestureType [3] 300 = ''single_click''"
proof -
  have h: "[3, 3, 3 :: int] \<noteq> []" "card (set [3, 3, 3 :: int]) = 1"
    and h': "[3 :: int] \<noteq> []" "card (set [3 :: int]) = 1"
    by simp_all
  show ?thesis
    using getGestureType_one_channel [OF h, of 900] getGestureType_one_channel [OF h, of 300]
      getGestureType_one_channel [OF h', of 300] h
    by simp
qed

text \<open>
  C10. For a non-empty press sequence and any duration the classifier answers one of
  \<open>single_click\<close>, \<open>long_press\<close>, \<open>multi_press\<close>, \<open>slide\<close> and never \<open>unknown\<close>: the
  number of unique channels is at least 1, so the final \<open>unknown\<close> is not reached.
\<close>

theorem getGestureType_named_category:
  assumes "sequence \<noteq> []"
  shows "getGestureType sequence d \<in> {''single_click'', ''long_press'', ''multi_press'', ''slide''}
         \<and> getGestureType sequence d \<noteq> ''unknown''
         \<and> 1 \<le> length (uniqueButtons sequence)"
proof -
  from assms have "set sequence \<noteq> {}" by simp
  then have "0 < card (set sequence)" by (simp add: card_gt_0_iff)
  then have c: "1 \<le> length (uniqueButtons sequence)" by (simp add: length_uniqueButtons)
  then have "length (uniqueButtons sequence) = 1 \<or> 1 < length (uniqueButtons sequence)" by arith
  then show ?thesis
    using assms c by (auto simp add: getGestureType_def Let_def)
qed

theorem getGestureType_named_category_witness:
  "[2, 4 :: int] \<noteq> []
   \<and> getGestureType [2, 4] 100 \<in> {''single_click'', ''long_press'', ''multi_press'', ''slide''}
   \<and> getGestureType [2, 4] 100 \<noteq> ''unknown''"
proof -
  have h: "[2, 4 :: int] \<noteq> []" by simp
  show ?thesis
    using getGestureType_named_category [OF h, of 100] h by simp
qed

section \<open>The session state machine\<close>

subsection \<open>The loop body, the loop and the two halves of a tick\<close>


lemma body_fst_indep:
  "fst (updateButtonStates_body now dr btn m) = fst (updateButtonStates_body now dr btn m')"
  by (simp add: updateButtonStates_body_def Let_def split: if_splits)

lemma body_pin: "pin (fst (updateButtonStates_body now dr btn m)) = pin btn"
  by (simp add: updateButtonStates_body_def Let_def split: if_splits)

lemma body_lastState:
  "lastState (fst (updateButtonStates_body now dr btn m)) = (dr (pin btn) = 0)"
  by (simp add: updateButtonStates_body_def Let_def split: if_splits)

lemma body_currentState:
  "currentState (fst (updateButtonStates_body now dr btn m)) =
     (if levelAccepted now dr btn then dr (pin btn) = 0 else currentState btn)"
  by (auto simp add: updateButtonStates_body_def levelAccepted_def Let_def DEBOUNCE_TIME_def)

lemma body_isPressed:
  "isPressed (fst (updateButtonStates_body now dr btn m)) =
     (if levelAccepted now dr btn then dr (pin btn) = 0 else isPressed btn)"
  by (auto simp add: updateButtonStates_body_def levelAccepted_def Let_def DEBOUNCE_TIME_def)

lemma body_manager:
  "snd (updateButtonStates_body now dr btn m) =
     (if pressAccepted now dr btn
      then m\<lparr>currentGesture := currentGesture m @ [pin btn], lastButtonTime := now,
             gestureStartTime := (if gestureActive m then gestureStartTime m else now),
             gestureActive := True\<rparr>
      else m)"
  by (auto simp add: updateButtonStates_body_def levelAccepted_def pressAccepted_def Let_def DEBOUNCE_TIME_def)

lemma body_inv:
  "session_inv m \<Longrightarrow> session_inv (snd (updateButtonStates_body now dr btn m))"
  by (simp add: body_manager session_inv_def)

lemma loop_fst:
  "fst (updateButtonStates_loop now dr bs m) = map (\<lambda>b. fst (updateButtonStates_body now dr b m)) bs"
proof (induction bs arbitrary: m)
  case Nil
  show ?case by simp
next
  case (Cons b bs)
  have "map (\<lambda>b'. fst (updateButtonStates_body now dr b' (snd (updateButtonStates_body now dr b m)))) bs
        = map (\<lambda>b'. fst (updateButtonStates_body now dr b' m)) bs"
    using body_fst_indep by (intro map_cong) auto
  then show ?case
    using Cons.IH [of "snd (updateButtonStates_body now dr b m)"]
    by (simp add: split_beta Let_def)
qed

lemma loop_inv:
  "session_inv m \<Longrightarrow> session_inv (snd (updateButtonStates_loop now dr bs m))"
proof (induction bs arbitrary: m)
  case Nil
  then show ?case by simp
next
  case (Cons b bs)
  from Cons.prems have "session_inv (snd (updateButtonStates_body now dr b m))"
    by (rule body_inv)
  then show ?case
    using Cons.IH by (simp add: split_beta Let_def)
qed

lemma loop_currentGesture:
  "currentGesture (snd (updateButtonStates_loop now dr bs m)) =
     currentGesture m @ map pin (filter (pressAccepted now dr) bs)"
proof (induction bs arbitrary: m)
  case Nil
  show ?case by simp
next
  case (Cons b bs)
  show ?case
    using Cons.IH [of "snd (updateButtonStates_body now dr b m)"]
    by (simp add: split_beta Let_def body_manager)
qed

lemma update_buttons:
  "buttons (updateButtonStates now dr m) = map (\<lambda>b. fst (updateButtonStates_body now dr b m)) (buttons m)"
  by (simp add: updateButtonStates_def split_beta loop_fst)

lemma update_currentGesture:
  "currentGesture (updateButtonStates now dr m) =
     currentGesture m @ map pin (filter (pressAccepted now dr) (buttons m))"
  by (simp add: updateButtonStates_def split_beta loop_currentGesture)

lemma update_inv:
  "session_inv m \<Longrightarrow> session_inv (updateButtonStates now dr m)"
  using loop_inv [of m now dr "buttons m"]
  by (simp add: updateButtonStates_def split_beta session_inv_def)

lemma reset_inv: "session_inv (resetGesture m)"
  by (simp add: session_inv_def resetGesture_def)

lemma analyze_state:
  "snd (analyzeGesture now m) = (if quiescent now m then resetGesture m else m)"
  by (simp add: analyzeGesture_def quiescent_def Let_def)

lemma analyze_inv: "session_inv m \<Longrightarrow> session_inv (snd (analyzeGesture now m))"
  by (simp add: analyze_state reset_inv)

lemma analyze_isValid:
  "isValid (fst (analyzeGesture now m)) \<longleftrightarrow> quiescent now m \<and> currentGesture m \<noteq> []"
  by (auto simp add: analyzeGesture_def quiescent_def Let_def TeethInput_new_def)

lemma init_loop_append: "init_loop buttonPins bs = bs @ map ButtonState_new buttonPins"
  by (induction buttonPins arbitrary: bs) auto

lemma init_value:
  "init buttonPins m = Inr \<lparr>buttons = map ButtonState_new buttonPins, currentGesture = [],
      gestureStartTime = 0, lastButtonTime = 0, gestureActive = False\<rparr>"
  by (simp add: init_def resetGesture_def init_loop_append)

lemma uniqueButtons_Nil_iff: "uniqueButtons sequence = [] \<longleftrightarrow> sequence = []"
proof -
  have "uniqueButtons sequence = [] \<longleftrightarrow> card (set sequence) = 0"
    using length_uniqueButtons [of sequence] by (metis length_0_conv)
  then show ?thesis by simp
qed

lemma example_button_update:
  "updateButtonStates 1501 released example_session = example_session"
  by (simp add: updateButtonStates_def updateButtonStates_body_def example_session_def
      example_button_def released_def Let_def DEBOUNCE_TIME_def)

lemma example_quiescent: "quiescent 1501 example_session"
  by (simp add: quiescent_def example_session_def example_button_def MULTI_PRESS_WINDOW_def)



subsection \<open>Runs: what a button remembers\<close>

lemma body_lastChangeTime:
  "lastChangeTime (fst (updateButtonStates_body now dr btn m)) =
     (if (dr (pin btn) = 0) \<noteq> lastState btn then now else lastChangeTime btn)"
  by (simp add: updateButtonStates_body_def Let_def split: if_splits)

lemma body_pressStartTime:
  "pressStartTime (fst (updateButtonStates_body now dr btn m)) =
     (if pressAccepted now dr btn then now else pressStartTime btn)"
  by (auto simp add: updateButtonStates_body_def levelAccepted_def pressAccepted_def Let_def)

lemma checkInput_buttons:
  "buttons (snd (checkInput nu dr na m)) =
     map (\<lambda>b. fst (updateButtonStates_body nu dr b m)) (buttons m)"
  by (simp add: checkInput_def analyze_state resetGesture_def update_buttons)

lemma run_snoc:
  "run (ticks @ [(nu, dr, na)]) m = snd (checkInput nu dr na (run ticks m))"
  by (induction ticks m rule: run.induct) simp_all

lemma run_length_buttons: "length (buttons (run ticks m)) = length (buttons m)"
  by (induction ticks m rule: run.induct) (simp_all add: checkInput_buttons)

text \<open>
  After any run from \<open>init\<close>, either \<open>lastChangeTime\<close> of a button is the clock of an
  earlier tick since which every reading of its pin was the last sample, or the button
  has not seen a pressed reading yet.
\<close>

lemma run_button_stable:
  assumes "buttons m0 = map ButtonState_new pins" and "i < length pins"
  shows "pin (buttons (run ticks m0) ! i) = pins ! i
         \<and> ((\<exists>ts1 t ts2. ticks = ts1 @ t # ts2
                \<and> fst t = lastChangeTime (buttons (run ticks m0) ! i)
                \<and> (\<forall>t' \<in> set (t # ts2).
                      (fst (snd t') (pins ! i) = 0) = lastState (buttons (run ticks m0) ! i)))
             \<or> (\<not> lastState (buttons (run ticks m0) ! i)
                 \<and> \<not> currentState (buttons (run ticks m0) ! i)))"
proof (induction ticks rule: rev_induct)
  case Nil
  from assms show ?case by (simp add: ButtonState_new_def)
next
  case (snoc tk ticks)
  obtain nu dr na where tk: "tk = (nu, dr, na)" by (cases tk)
  let ?b = "buttons (run ticks m0) ! i"
  let ?b' = "buttons (run (ticks @ [tk]) m0) ! i"
  let ?p = "pins ! i"
  have len: "i < length (buttons (run ticks m0))"
    using assms by (simp add: run_length_buttons)
  have b': "?b' = fst (updateButtonStates_body nu dr ?b (run ticks m0))"
    using len by (simp add: tk run_snoc checkInput_buttons)
  from snoc.IH have pin: "pin ?b = ?p" by simp
  have pin': "pin ?b' = ?p" by (simp add: b' body_pin pin)
  have ls': "lastState ?b' = (dr ?p = 0)" by (simp add: b' body_lastState pin)
  show ?case
  proof (cases "(dr ?p = 0) \<noteq> lastState ?b")
    case True
    have "lastChangeTime ?b' = nu" using True by (simp add: b' body_lastChangeTime pin)
    then have "ticks @ [tk] = ticks @ tk # [] \<and> fst tk = lastChangeTime ?b'
        \<and> (\<forall>t' \<in> set (tk # []). (fst (snd t') ?p = 0) = lastState ?b')"
      using ls' by (simp add: tk)
    then show ?thesis using pin' by blast
  next
    case False
    then have same: "lastState ?b' = lastState ?b" by (simp add: ls')
    have lct: "lastChangeTime ?b' = lastChangeTime ?b"
      using False by (simp add: b' body_lastChangeTime pin)
    from snoc.IH consider
      (split) ts1 t ts2 where "ticks = ts1 @ t # ts2" "fst t = lastChangeTime ?b"
        "\<forall>t' \<in> set (t # ts2). (fst (snd t') ?p = 0) = lastState ?b"
      | (fresh) "\<not> lastState ?b" "\<not> currentState ?b"
      by blast
    then show ?thesis
    proof cases
      case split
      then have "ticks @ [tk] = ts1 @ t # (ts2 @ [tk]) \<and> fst t = lastChangeTime ?b'
        \<and> (\<forall>t' \<in> set (t # (ts2 @ [tk])). (fst (snd t') ?p = 0) = lastState ?b')"
        using same lct ls' by (auto simp add: tk)
      then show ?thesis using pin' by blast
    next
      case fresh
      with False have "dr ?p \<noteq> 0" by simp
      then have "\<not> levelAccepted nu dr ?b"
        using fresh by (simp add: levelAccepted_def pin)
      then have "currentState ?b' = currentState ?b"
        by (simp add: b' body_currentState)
      with fresh same pin' show ?thesis by simp
    qed
  qed
qed

subsection \<open>Claims about the session\<close>

text \<open>
  C9. Every operation keeps the session flag and the press list in step:
  \<open>gestureActive\<close> holds exactly when \<open>currentGesture\<close> is non-empty. \<open>init\<close> and
  \<open>resetGesture\<close> establish this, \<open>updateButtonStates\<close>, \<open>analyzeGesture\<close> and so every
  tick of \<open>checkInput\<close> preserve it. Hence an active session holds at least one press,
  and a tick that closes a session emits a valid gesture with a non-empty channel list.
\<close>

theorem session_flag_invariant:
  "(\<forall>m'. init buttonPins m0 = Inr m' \<longrightarrow> session_inv m')
   \<and> (session_inv m \<longrightarrow> session_inv (updateButtonStates nu dr m))
   \<and> (session_inv m \<longrightarrow> session_inv (snd (analyzeGesture na m)))
   \<and> (session_inv m \<longrightarrow> session_inv (snd (checkInput nu dr na m)))
   \<and> session_inv (resetGesture m)
   \<and> (session_inv m \<and> gestureActive m \<longrightarrow> currentGesture m \<noteq> [])
   \<and> (session_inv m \<and> quiescent na (updateButtonStates nu dr m)
        \<longrightarrow> isValid (fst (checkInput nu dr na m)) \<and> teeth (fst (checkInput nu dr na m)) \<noteq> [])"
proof -
  have i: "\<forall>m'. init buttonPins m0 = Inr m' \<longrightarrow> session_inv m'"
    by (auto simp add: init_value session_inv_def)
  have u: "session_inv m \<longrightarrow> session_inv (updateButtonStates nu dr m)"
    by (simp add: update_inv)
  have a: "session_inv m \<longrightarrow> session_inv (snd (analyzeGesture na m))"
    by (simp add: analyze_inv)
  have c: "session_inv m \<longrightarrow> session_inv (snd (checkInput nu dr na m))"
    by (simp add: checkInput_def update_inv analyze_inv)
  have r: "session_inv (resetGesture m)"
    by (rule reset_inv)
  have g: "session_inv m \<and> gestureActive m \<longrightarrow> currentGesture m \<noteq> []"
    by (auto simp add: session_inv_def)
  have e: "session_inv m \<and> quiescent na (updateButtonStates nu dr m)
        \<longrightarrow> isValid (fst (checkInput nu dr na m)) \<and> teeth (fst (checkInput nu dr na m)) \<noteq> []"
  proof
    assume h: "session_inv m \<and> quiescent na (updateButtonStates nu dr m)"
    let ?m1 = "updateButtonStates nu dr m"
    from h have "session_inv ?m1" by (simp add: update_inv)
    moreover from h have "gestureActive ?m1" by (simp add: quiescent_def)
    ultimately have ne: "currentGesture ?m1 \<noteq> []" by (simp add: session_inv_def)
    with h have v: "isValid (fst (checkInput nu dr na m))"
      by (simp add: checkInput_def analyze_isValid)
    from ne h have "teeth (fst (checkInput nu dr na m)) = uniqueButtons (currentGesture ?m1)"
      by (simp add: checkInput_def analyzeGesture_def quiescent_def Let_def)
    with ne have "teeth (fst (checkInput nu dr na m)) \<noteq> []"
      by (simp add: uniqueButtons_Nil_iff)
    with v show "isValid (fst (checkInput nu dr na m)) \<and> teeth (fst (checkInput nu dr na m)) \<noteq> []"
      by simp
  qed
  from i u a c r g e show ?thesis by blast
qed

theorem session_flag_invariant_witness:
  "session_inv example_session \<and> gestureActive example_session
   \<and> quiescent 1501 (updateButtonStates 1501 released example_session)
   \<and> session_inv (snd (checkInput 1501 released 1501 example_session))
   \<and> currentGesture example_session \<noteq> []
   \<and> isValid (fst (checkInput 1501 released 1501 example_session))"
proof -
  have h1: "session_inv example_session" and h2: "gestureActive example_session"
    by (simp_all add: session_inv_def example_session_def)
  have h3: "quiescent 1501 (updateButtonStates 1501 released example_session)"
    by (simp add: example_button_update example_quiescent)
  show ?thesis
    using session_flag_invariant [of "[3]" example_session example_session 1501 released 1501]
      h1 h2 h3
    by blast
qed



text \<open>
  C7, as stated: with an empty accumulated press sequence the classification returned
  has \<open>is_valid = false\<close> and category \<open>unknown\<close>. The result returned right after
  \<open>init\<close>, when nothing has been pressed, has the empty string as its category.
\<close>

theorem empty_sequence_gesture_not_unknown:
  "currentGesture example_idle = []
   \<and> gesture (fst (analyzeGesture 1501 example_idle)) = []
   \<and> gesture (fst (analyzeGesture 1501 example_idle)) \<noteq> ''unknown''
   \<and> gesture (fst (checkInput 1501 released 1501 example_idle)) \<noteq> ''unknown''"
  by (simp add: checkInput_def analyzeGesture_def updateButtonStates_def
      updateButtonStates_body_def example_idle_def ButtonState_new_def released_def
      Let_def TeethInput_new_def DEBOUNCE_TIME_def)

text \<open>
  C7, amended: with an empty accumulated press sequence \<open>analyzeGesture\<close>, and so every
  tick, returns the default-constructed result: \<open>isValid\<close> is false, the category is
  the empty \<^verbatim>\<open>String\<close> and not \<open>unknown\<close>, there are no channels and the duration is 0.
  This is an ordinary return value, so no gesture reaches the caller and nothing is
  raised. \<open>getGestureType\<close> answers \<open>unknown\<close> for an empty sequence, but the guard
  \<^verbatim>\<open>if (!currentGesture.empty())\<close> keeps \<open>analyzeGesture\<close> from calling it with one.
\<close>

theorem empty_sequence_unclassified:
  "getGestureType [] d = ''unknown''
   \<and> (currentGesture m = [] \<longrightarrow>
        fst (analyzeGesture now m) = TeethInput_new
        \<and> fst (analyzeGesture now m) = \<lparr>isValid = False, gesture = [], teeth = [], duration = 0\<rparr>
        \<and> \<not> isValid (fst (analyzeGesture now m))
        \<and> gesture (fst (analyzeGesture now m)) = []
        \<and> gesture (fst (analyzeGesture now m)) \<noteq> ''unknown''
        \<and> teeth (fst (analyzeGesture now m)) = []
        \<and> duration (fst (analyzeGesture now m)) = 0)
   \<and> (currentGesture (updateButtonStates nu dr m) = [] \<longrightarrow>
        fst (checkInput nu dr na m) = TeethInput_new
        \<and> \<not> isValid (fst (checkInput nu dr na m))
        \<and> gesture (fst (checkInput nu dr na m)) = [])"
  by (simp add: getGestureType_def checkInput_def analyzeGesture_def Let_def TeethInput_new_def)

theorem empty_sequence_unclassified_witness:
  "currentGesture (resetGesture example_session) = []
   \<and> currentGesture (updateButtonStates 1501 released (resetGesture example_session)) = []
   \<and> \<not> isValid (fst (analyzeGesture 1501 (resetGesture example_session)))
   \<and> gesture (fst (analyzeGesture 1501 (resetGesture example_session))) = []
   \<and> \<not> isValid (fst (checkInput 1501 released 1501 (resetGesture example_session)))
   \<and> gesture (fst (checkInput 1501 released 1501 (resetGesture example_session))) = []"
proof -
  have h: "currentGesture (resetGesture example_session) = []"
    by (simp add: resetGesture_def)
  have u: "currentGesture (updateButtonStates 1501 released (resetGesture example_session)) = []"
    by (simp add: update_currentGesture resetGesture_def example_session_def example_button_def
        pressAccepted_def levelAccepted_def released_def)
  show ?thesis
    using empty_sequence_unclassified [of 0 "resetGesture example_session" 1501 1501 released 1501] h u
    by (simp add: TeethInput_new_def)
qed

text \<open>
  C8. Classification is a function of the press sequence and the duration alone: two
  completions with the same press sequence and the same duration return the same
  result (category, channels, duration in seconds, validity), whatever the button
  tables, the clocks and the other fields of the two managers are.
\<close>

theorem classification_depends_on_sequence_and_duration:
  assumes "currentGesture m1 = currentGesture m2"
    and "now1 - gestureStartTime m1 = now2 - gestureStartTime m2"
    and "isValid (fst (analyzeGesture now1 m1))"
    and "isValid (fst (analyzeGesture now2 m2))"
  shows "fst (analyzeGesture now1 m1) = fst (analyzeGesture now2 m2)
         \<and> fst (analyzeGesture now1 m1) =
             \<lparr>isValid = True,
              gesture = getGestureType (currentGesture m1) (now1 - gestureStartTime m1),
              teeth = uniqueButtons (currentGesture m1),
              duration = float_of_double
                           (double_div (double_of_ulong (now1 - gestureStartTime m1)) 1000)\<rparr>"
proof -
  have r: "fst (analyzeGesture now m) =
             \<lparr>isValid = True,
              gesture = getGestureType (currentGesture m) (now - gestureStartTime m),
              teeth = uniqueButtons (currentGesture m),
              duration = float_of_double
                           (double_div (double_of_ulong (now - gestureStartTime m)) 1000)\<rparr>"
    if "isValid (fst (analyzeGesture now m))" for now m
    using that
    by (simp add: analyzeGesture_def Let_def TeethInput_new_def split: if_splits)
  from r [OF assms(3)] r [OF assms(4)] assms(1,2) show ?thesis by simp
qed

theorem classification_depends_on_sequence_and_duration_witness:
  "currentGesture example_session = currentGesture example_session_later
   \<and> 1501 - gestureStartTime example_session = 70501 - gestureStartTime example_session_later
   \<and> isValid (fst (analyzeGesture 1501 example_session))
   \<and> isValid (fst (analyzeGesture 70501 example_session_later))
   \<and> fst (analyzeGesture 1501 example_session) = fst (analyzeGesture 70501 example_session_later)"
proof -
  have h1: "currentGesture example_session = currentGesture example_session_later"
    and h2: "1501 - gestureStartTime example_session = 70501 - gestureStartTime example_session_later"
    by (simp_all add: example_session_def example_session_later_def)
  have h3: "isValid (fst (analyzeGesture 1501 example_session))"
    by (simp add: analyze_isValid quiescent_def example_session_def example_button_def
        MULTI_PRESS_WINDOW_def)
  have h4: "isValid (fst (analyzeGesture 70501 example_session_later))"
    by (simp add: analyze_isValid quiescent_def example_session_later_def MULTI_PRESS_WINDOW_def)
  show ?thesis
    using classification_depends_on_sequence_and_duration [OF h1 h2 h3 h4] h1 h2 h3 h4
    by simp
qed

subsection \<open>Claims about the sampler\<close>

lemma example_init: "init [3] example_session = Inr example_idle"
  by (simp add: init_value example_idle_def)

lemma example_run:
  "run [(1000, pressed, 1000)] example_idle =
     \<lparr>buttons = [\<lparr>pin = 3, currentState = False, lastState = True, pressStartTime = 0,
                  lastChangeTime = 1000, isPressed = False\<rparr>],
      currentGesture = [], gestureStartTime = 0, lastButtonTime = 0, gestureActive = False\<rparr>"
  by (simp add: checkInput_def updateButtonStates_def updateButtonStates_body_def
      analyzeGesture_def example_idle_def ButtonState_new_def pressed_def Let_def
      DEBOUNCE_TIME_def TeethInput_new_def)

text \<open>
  C4. For every channel and every tick of a run that starts with \<open>init\<close>: the debounced
  level or \<open>isPressed\<close> of the channel changes in the tick only if the reading equals
  the previous raw sample and more than 50 ms (so at least \<open>DEBOUNCE_TIME\<close>) lie
  between the tick and the last recorded raw transition, and then there is an earlier
  tick, more than 50 ms back, from which on every reading of the pin was the present
  one. A reading that flips the raw level, or that comes within 50 ms of the last
  transition, produces no press or release edge: debounced level, \<open>isPressed\<close> and
  press start time stay as they are and the channel adds no entry to the press
  sequence, which grows by exactly the pins of the accepted presses. Times are 32-bit
  \<^verbatim>\<open>millis()\<close> values and differences wrap as on the device.
\<close>

theorem debounce_accepts_only_stable_levels:
  assumes "init pins m00 = Inr m0" and "i < length pins"
  shows "let m = run ticks m0;
             b = buttons m ! i;
             b' = buttons (updateButtonStates nu dr m) ! i;
             reading = (dr (pins ! i) = 0)
         in (currentState b' \<noteq> currentState b \<or> isPressed b' \<noteq> isPressed b \<longrightarrow>
               reading = lastState b \<and> 50 < unat (nu - lastChangeTime b)
               \<and> (\<exists>ts1 t ts2. ticks = ts1 @ t # ts2 \<and> 50 < unat (nu - fst t)
                     \<and> (\<forall>t' \<in> set (t # ts2). (fst (snd t') (pins ! i) = 0) = reading)))
            \<and> (reading \<noteq> lastState b \<or> unat (nu - lastChangeTime b) \<le> 50 \<longrightarrow>
                 currentState b' = currentState b \<and> isPressed b' = isPressed b
                 \<and> pressStartTime b' = pressStartTime b \<and> \<not> pressAccepted nu dr b)
            \<and> currentGesture (updateButtonStates nu dr m) =
                 currentGesture m @ map pin (filter (pressAccepted nu dr) (buttons m))"
proof -
  let ?m = "run ticks m0"
  let ?b = "buttons ?m ! i"
  let ?b' = "buttons (updateButtonStates nu dr ?m) ! i"
  let ?p = "pins ! i"
  let ?reading = "dr ?p = 0"
  from assms(1) have bs0: "buttons m0 = map ButtonState_new pins"
    by (auto simp add: init_value)
  have len: "i < length (buttons ?m)"
    using assms(2) bs0 by (simp add: run_length_buttons)
  have b': "?b' = fst (updateButtonStates_body nu dr ?b ?m)"
    using len by (simp add: update_buttons)
  note stable = run_button_stable [OF bs0 assms(2), of ticks]
  from stable have pin: "pin ?b = ?p" by simp
  have acc: "levelAccepted nu dr ?b \<longleftrightarrow>
      ?reading = lastState ?b \<and> 50 < unat (nu - lastChangeTime ?b) \<and> ?reading \<noteq> currentState ?b"
    by (simp add: levelAccepted_def Let_def pin DEBOUNCE_TIME_def word_less_nat_alt)
  have unchanged: "currentState ?b' = currentState ?b \<and> isPressed ?b' = isPressed ?b
      \<and> pressStartTime ?b' = pressStartTime ?b \<and> \<not> pressAccepted nu dr ?b"
    if "\<not> levelAccepted nu dr ?b"
    using that
    by (simp add: b' body_currentState body_isPressed body_pressStartTime pressAccepted_def)
  have first: "?reading = lastState ?b \<and> 50 < unat (nu - lastChangeTime ?b)
      \<and> (\<exists>ts1 t ts2. ticks = ts1 @ t # ts2 \<and> 50 < unat (nu - fst t)
            \<and> (\<forall>t' \<in> set (t # ts2). (fst (snd t') ?p = 0) = ?reading))"
    if ch: "currentState ?b' \<noteq> currentState ?b \<or> isPressed ?b' \<noteq> isPressed ?b"
  proof -
    from ch unchanged have la: "levelAccepted nu dr ?b" by blast
    with acc have r: "?reading = lastState ?b" and t: "50 < unat (nu - lastChangeTime ?b)"
      and c: "?reading \<noteq> currentState ?b"
      by blast+
    from r c have "lastState ?b \<or> currentState ?b" by auto
    with stable obtain ts1 t ts2 where "ticks = ts1 @ t # ts2" "fst t = lastChangeTime ?b"
      "\<forall>t' \<in> set (t # ts2). (fst (snd t') ?p = 0) = lastState ?b"
      by blast
    with r t have "ticks = ts1 @ t # ts2 \<and> 50 < unat (nu - fst t)
            \<and> (\<forall>t' \<in> set (t # ts2). (fst (snd t') ?p = 0) = ?reading)"
      by simp
    then have "\<exists>ts1 t ts2. ticks = ts1 @ t # ts2 \<and> 50 < unat (nu - fst t)
            \<and> (\<forall>t' \<in> set (t # ts2). (fst (snd t') ?p = 0) = ?reading)"
      by blast
    with r t show ?thesis by simp
  qed
  have second: "currentState ?b' = currentState ?b \<and> isPressed ?b' = isPressed ?b
      \<and> pressStartTime ?b' = pressStartTime ?b \<and> \<not> pressAccepted nu dr ?b"
    if "?reading \<noteq> lastState ?b \<or> unat (nu - lastChangeTime ?b) \<le> 50"
  proof -
    from that acc have "\<not> levelAccepted nu dr ?b" by auto
    then show ?thesis by (rule unchanged)
  qed
  have third: "currentGesture (updateButtonStates nu dr ?m) =
      currentGesture ?m @ map pin (filter (pressAccepted nu dr) (buttons ?m))"
    by (rule update_currentGesture)
  show ?thesis
    unfolding Let_def
  proof (intro conjI impI)
    assume "currentState ?b' \<noteq> currentState ?b \<or> isPressed ?b' \<noteq> isPressed ?b"
    from first [OF this]
    show "?reading = lastState ?b" "50 < unat (nu - lastChangeTime ?b)"
      "\<exists>ts1 t ts2. ticks = ts1 @ t # ts2 \<and> 50 < unat (nu - fst t)
            \<and> (\<forall>t' \<in> set (t # ts2). (fst (snd t') ?p = 0) = ?reading)"
      by blast+
  next
    assume "?reading \<noteq> lastState ?b \<or> unat (nu - lastChangeTime ?b) \<le> 50"
    from second [OF this]
    show "currentState ?b' = currentState ?b" "isPressed ?b' = isPressed ?b"
      "pressStartTime ?b' = pressStartTime ?b" "\<not> pressAccepted nu dr ?b"
      by simp_all
  next
    show "currentGesture (updateButtonStates nu dr ?m) =
      currentGesture ?m @ map pin (filter (pressAccepted nu dr) (buttons ?m))"
      by (rule third)
  qed
qed

theorem debounce_accepts_only_stable_levels_witness:
  "init [3] example_session = Inr example_idle \<and> 0 < length [3 :: int]
   \<and> isPressed (buttons (updateButtonStates 1051 pressed
                          (run [(1000, pressed, 1000)] example_idle)) ! 0)
       \<noteq> isPressed (buttons (run [(1000, pressed, 1000)] example_idle) ! 0)
   \<and> lastState (buttons (run [(1000, pressed, 1000)] example_idle) ! 0)
   \<and> 50 < unat (1051 - lastChangeTime (buttons (run [(1000, pressed, 1000)] example_idle) ! 0))
   \<and> (released ([3] ! 0) = 0) \<noteq> lastState (buttons (run [(1000, pressed, 1000)] example_idle) ! 0)
   \<and> isPressed (buttons (updateButtonStates 1051 released
                          (run [(1000, pressed, 1000)] example_idle)) ! 0)
       = isPressed (buttons (run [(1000, pressed, 1000)] example_idle) ! 0)"
proof -
  let ?m = "run [(1000, pressed, 1000)] example_idle"
  have h1: "init [3] example_session = Inr example_idle" by (rule example_init)
  have h2: "0 < length [3 :: int]" by simp
  have ch: "isPressed (buttons (updateButtonStates 1051 pressed ?m) ! 0) \<noteq> isPressed (buttons ?m ! 0)"
    unfolding example_run
    by (simp add: updateButtonStates_def updateButtonStates_body_def pressed_def Let_def
        DEBOUNCE_TIME_def)
  have fl: "(released ([3] ! 0) = 0) \<noteq> lastState (buttons ?m ! 0)"
    unfolding example_run by (simp add: released_def)
  have rd: "pressed ([3] ! 0) = 0" by (simp add: pressed_def)
  from debounce_accepts_only_stable_levels [OF h1 h2, of "[(1000, pressed, 1000)]" 1051 pressed]
  have "currentState (buttons (updateButtonStates 1051 pressed ?m) ! 0) \<noteq> currentState (buttons ?m ! 0)
        \<or> isPressed (buttons (updateButtonStates 1051 pressed ?m) ! 0) \<noteq> isPressed (buttons ?m ! 0)
       \<longrightarrow> (pressed ([3] ! 0) = 0) = lastState (buttons ?m ! 0)
           \<and> 50 < unat (1051 - lastChangeTime (buttons ?m ! 0))"
    unfolding Let_def by blast
  with ch rd have a: "lastState (buttons ?m ! 0) \<and> 50 < unat (1051 - lastChangeTime (buttons ?m ! 0))"
    by blast
  from debounce_accepts_only_stable_levels [OF h1 h2, of "[(1000, pressed, 1000)]" 1051 released]
  have "(released ([3] ! 0) = 0) \<noteq> lastState (buttons ?m ! 0)
        \<or> unat (1051 - lastChangeTime (buttons ?m ! 0)) \<le> 50
       \<longrightarrow> isPressed (buttons (updateButtonStates 1051 released ?m) ! 0) = isPressed (buttons ?m ! 0)"
    unfolding Let_def by blast
  with fl have b: "isPressed (buttons (updateButtonStates 1051 released ?m) ! 0) = isPressed (buttons ?m ! 0)"
    by blast
  from h1 h2 ch a fl b show ?thesis by blast
qed

subsection \<open>Claims about init\<close>

text \<open>
  C5, as stated: initialization fails for an empty channel list or one with duplicate
  ids. It does not: \<open>init\<close> returns a manager for the empty list and for [2, 2].
\<close>

theorem init_empty_list_succeeds:
  "init [] example_session =
     Inr \<lparr>buttons = [], currentGesture = [], gestureStartTime = 0, lastButtonTime = 0,
          gestureActive = False\<rparr>
   \<and> init [2, 2] example_session =
     Inr \<lparr>buttons = [ButtonState_new 2, ButtonState_new 2], currentGesture = [],
          gestureStartTime = 0, lastButtonTime = 0, gestureActive = False\<rparr>"
  by (simp add: init_def resetGesture_def example_session_def)

text \<open>
  C5, amended: \<open>init\<close> never fails. For every channel list, empty or with duplicates
  included, it returns a manager with one released button per listed id, in the order
  of the list, and an idle session.
\<close>

theorem init_never_fails:
  "init buttonPins m =
     Inr \<lparr>buttons = map ButtonState_new buttonPins, currentGesture = [],
          gestureStartTime = 0, lastButtonTime = 0, gestureActive = False\<rparr>
   \<and> init buttonPins m \<noteq> Inl e"
  by (simp add: init_value)

section \<open>The duration in seconds\<close>

subsection \<open>Rounding to a given precision\<close>



lemma ilog2_bounds:
  assumes "0 < x"
  shows "2 powi ilog2 x \<le> x" and "x < 2 powi (ilog2 x + 1)"
proof -
  obtain a b where q: "quotient_of x = (a, b)" by (cases "quotient_of x")
  then have b: "0 < b" and x: "x = of_int a / of_int b"
    by (simp_all add: quotient_of_denom_pos quotient_of_div)
  with assms have a: "0 < a"
    by (simp add: zero_less_divide_iff)
  let ?A = "bitlen a" and ?B = "bitlen b"
  from a b have A1: "1 \<le> ?A" and B1: "1 \<le> ?B"
    by (simp_all add: bitlen_alt_def)
  from bitlen_bounds [OF a] have alo: "(2::rat) ^ nat (?A - 1) \<le> of_int a" and ahi: "of_int a < (2::rat) ^ nat ?A"
    by (metis of_int_le_iff of_int_numeral of_int_power, metis of_int_less_iff of_int_numeral of_int_power)
  from bitlen_bounds [OF b] have blo: "(2::rat) ^ nat (?B - 1) \<le> of_int b" and bhi: "of_int b < (2::rat) ^ nat ?B"
    by (metis of_int_le_iff of_int_numeral of_int_power, metis of_int_less_iff of_int_numeral of_int_power)
  have pa: "(2::rat) ^ nat (?A - 1) = 2 powi (?A - 1)" "(2::rat) ^ nat ?A = 2 powi ?A"
    using A1 by (simp_all add: power_int_def)
  have pb: "(2::rat) ^ nat (?B - 1) = 2 powi (?B - 1)" "(2::rat) ^ nat ?B = 2 powi ?B"
    using B1 by (simp_all add: power_int_def)
  have bpos: "(0::rat) < of_int b" using b by simp
  have lower: "2 powi (?A - ?B - 1) \<le> x"
  proof -
    have "(2::rat) powi (?A - ?B - 1) = 2 powi (?A - 1) / 2 powi ?B"
      by (simp add: power_int_diff)
    also have "\<dots> \<le> of_int a / 2 powi ?B"
      using alo pa by (simp add: divide_right_mono)
    also have "\<dots> \<le> of_int a / of_int b"
      using bhi pb a bpos by (simp add: frac_le)
    finally show ?thesis by (simp add: x)
  qed
  have upper: "x < 2 powi (?A - ?B + 1)"
  proof -
    have "x = of_int a / of_int b" by (rule x)
    also have "\<dots> < 2 powi ?A / of_int b"
      using ahi pa bpos by (simp add: divide_strict_right_mono)
    also have "\<dots> \<le> 2 powi ?A / 2 powi (?B - 1)"
      using blo pb by (simp add: frac_le)
    also have "\<dots> = 2 powi (?A - ?B + 1)"
      by (simp add: power_int_diff [symmetric] algebra_simps)
    finally show ?thesis .
  qed
  have il: "ilog2 x = (if 2 powi (?A - ?B) \<le> x then ?A - ?B else ?A - ?B - 1)"
    by (simp add: ilog2_def q Let_def)
  show "2 powi ilog2 x \<le> x"
    using lower by (simp add: il)
  show "x < 2 powi (ilog2 x + 1)"
    using upper by (simp add: il not_le)
qed



text \<open>
  The rounded value of a positive number is a significand of \<open>p\<close> bits (or the next
  power of two) times a power of two, and it is off by at most half a unit in the last
  place, that is by at most \<open>x / 2\<^sup>p\<close>.
\<close>

lemma round_to_precision_representable:
  assumes "0 < x" and "0 < p"
  shows "\<exists>n. round_to_precision p x = of_int n * 2 powi (ilog2 x + 1 - int p)
             \<and> 2 ^ (p - 1) \<le> n \<and> n \<le> 2 ^ p"
proof -
  define s :: rat where "s = 2 powi (int p - 1 - ilog2 x)"
  define n where "n = round_half_even (x * s)"
  have s: "0 < s" by (simp add: s_def)
  have r: "round_to_precision p x = of_int n / s"
    using assms(1) by (simp add: round_to_precision_def s_def n_def Let_def)
  have inv: "1 / s = 2 powi (ilog2 x + 1 - int p)"
    by (simp add: s_def power_int_diff power_int_add field_simps)
  have pp: "(2::rat) powi (int p - 1) = 2 ^ (p - 1)" "(2::rat) powi int p = 2 ^ p"
    using assms(2) by (simp_all add: power_int_def nat_diff_distrib)
  have "2 powi ilog2 x * s \<le> x * s"
    using ilog2_bounds(1) [OF assms(1)] s by (simp add: mult_right_mono)
  then have lo: "(2::rat) ^ (p - 1) \<le> x * s"
    by (simp add: s_def power_int_add [symmetric] pp)
  have "x * s < 2 powi (ilog2 x + 1) * s"
    using ilog2_bounds(2) [OF assms(1)] s by (simp add: mult_strict_right_mono)
  then have hi: "x * s < (2::rat) ^ p"
    by (simp add: s_def power_int_add [symmetric] pp)
  have fl: "\<lfloor>x * s\<rfloor> \<le> n" "n \<le> \<lfloor>x * s\<rfloor> + 1"
    by (simp_all add: n_def round_half_even_def Let_def)
  have "(2::int) ^ (p - 1) \<le> \<lfloor>x * s\<rfloor>"
    using lo by (simp add: le_floor_iff)
  with fl have n1: "2 ^ (p - 1) \<le> n" by linarith
  have "\<lfloor>x * s\<rfloor> < (2::int) ^ p"
    using hi by (simp add: floor_less_iff)
  with fl have n2: "n \<le> 2 ^ p" by linarith
  have "round_to_precision p x = of_int n * 2 powi (ilog2 x + 1 - int p)"
    using r inv by (simp add: divide_inverse)
  with n1 n2 show ?thesis by blast
qed


subsection \<open>Claims about the completed gesture\<close>



end
